theory Spec2Isabelle
  imports Main "HOL-Library.Multiset"
begin

section \<open>Data model (src/main.go, lines 18-33)\<close>

text \<open>
  \<open>Book\<close> is the Go struct of the same name. \<open>ID\<close> is an \<open>int64\<close>; the handlers do no
  arithmetic on it, so it is an \<open>int\<close> here and the 64-bit range is enforced where a value
  is produced (\<open>ParseInt\<close>). A \<open>time.Time\<close> is an instant; it is kept as the integer
  number of microseconds a \<open>TIMESTAMPTZ\<close> column stores.
\<close>

record Book =
  ID :: int
  Title :: string
  Author :: string
  CreatedAt :: int
  UpdatedAt :: int

record bookPayload =
  payload_Title :: string
  payload_Author :: string

text \<open>
  What \<open>encoding/json\<close> writes, as a JSON value. A Go slice is \<open>nil\<close> or holds elements;
  \<open>None\<close> is the nil slice, which \<open>encoding/json\<close> encodes as \<open>null\<close>, while an allocated
  slice encodes as an array.
\<close>

datatype json =
  JNull
| JInt int
| JString string
| JTime int
| JArray "json list"
| JObject "(string \<times> json) list"

record response =
  status :: nat
  content_type :: "string option"
  body :: "json option"

section \<open>The world outside the handlers\<close>

text \<open>
  \<open>server.db\<close> is a connection pool to a PostgreSQL database holding the table of
  \<open>ensureSchema\<close> (lines 65-79): \<open>books\<close> are its rows in heap order, \<open>books_id_seq\<close> is the
  last value handed out by the sequence behind \<open>id SERIAL\<close>. \<open>stmts\<close> records every
  statement the handlers send to the database, \<open>logged\<close> every line written by \<open>log.Printf\<close>.
\<close>

datatype stmt =
  SelectAll
| SelectByID int
| Insert string string
| Update string string int
| Delete int

record world =
  books :: "Book list"
  books_id_seq :: int
  stmts :: "stmt list"
  logged :: "string list"

text \<open>
  What the environment decides for one request: the decoder of \<open>encoding/json\<close> applied to
  the request body (\<open>Inl\<close> its error), the reading of \<open>NOW()\<close> of the statement, and the
  failures of the driver. \<open>stmt_err\<close> is the error \<open>Query\<close> and \<open>Exec\<close> return and
  \<open>QueryRow(...).Scan\<close> passes on (other than \<open>sql.ErrNoRows\<close>); \<open>scan_err = Some (k, e)\<close>
  makes \<open>rows.Scan\<close> fail with \<open>e\<close> on row \<open>k\<close>; \<open>next_err = Some (k, e)\<close> makes
  \<open>rows.Next()\<close> return false in place of row \<open>k\<close>, with \<open>rows.Err() = e\<close>;
  \<open>affected_err = Some (c, e)\<close> makes \<open>res.RowsAffected()\<close> return the count \<open>c\<close> together
  with the error \<open>e\<close>.
\<close>

record env =
  json_decode :: "string \<Rightarrow> string + bookPayload"
  now :: int
  stmt_err :: "string option"
  scan_err :: "(nat \<times> string) option"
  next_err :: "(nat \<times> string) option"
  affected_err :: "(int \<times> string) option"

definition no_fault :: "env \<Rightarrow> bool" where
  "no_fault e \<longleftrightarrow>
     stmt_err e = None \<and> scan_err e = None \<and> next_err e = None \<and> affected_err e = None"

section \<open>Response encoder (lines 212-227)\<close>

text \<open>
  \<open>time.Time.MarshalJSON\<close> writes RFC 3339 and fails when the year is outside 0..9999.
  A timestamp is the number of microseconds since the Unix epoch and its year is read in
  UTC, so the years 0..9999 are the instants from \<open>year0\<close> up to, not including,
  \<open>year10000\<close>.
\<close>

definition year0 :: int where
  "year0 = - 62167219200000000"

definition year10000 :: int where
  "year10000 = 253402300800000000"

definition marshal_Time :: "int \<Rightarrow> string + json" where
  "marshal_Time t =
     (if t < year0 \<or> year10000 \<le> t
      then Inl ''Time.MarshalJSON: year outside of range [0,9999]''
      else Inr (JTime t))"

text \<open>
  \<open>json.Marshal\<close> of a \<open>Book\<close>, field by field in the order of the struct; the error of
  a field's \<open>MarshalJSON\<close> is the error of the whole value. A slice is encoded element by
  element, the nil slice as \<open>null\<close>.
\<close>

definition encode_Book :: "Book \<Rightarrow> string + json" where
  "encode_Book b =
     (case marshal_Time (CreatedAt b) of
        Inl err \<Rightarrow> Inl (''json: error calling MarshalJSON for type time.Time: '' @ err)
      | Inr c \<Rightarrow>
          (case marshal_Time (UpdatedAt b) of
             Inl err \<Rightarrow> Inl (''json: error calling MarshalJSON for type time.Time: '' @ err)
           | Inr u \<Rightarrow>
               Inr (JObject [(''id'', JInt (ID b)), (''title'', JString (Title b)),
                             (''author'', JString (Author b)), (''created_at'', c),
                             (''updated_at'', u)])))"

fun encode_elems :: "Book list \<Rightarrow> string + json list" where
  "encode_elems [] = Inr []"
| "encode_elems (b # bs) =
     (case encode_Book b of
        Inl err \<Rightarrow> Inl err
      | Inr j \<Rightarrow> (case encode_elems bs of Inl err \<Rightarrow> Inl err | Inr js \<Rightarrow> Inr (j # js)))"

definition encode_Books :: "Book list option \<Rightarrow> string + json" where
  "encode_Books bs =
     (case bs of
        None \<Rightarrow> Inr JNull
      | Some xs \<Rightarrow> (case encode_elems xs of Inl err \<Rightarrow> Inl err | Inr js \<Rightarrow> Inr (JArray js)))"

definition encode_error :: "string \<Rightarrow> string + json" where
  "encode_error msg = Inr (JObject [(''error'', JString msg)])"

text \<open>
  \<open>respondJSON\<close>: the header and the status are written first; \<open>Encode\<close> then writes the
  body, or writes nothing and returns the error of the encoding, which is logged. The
  argument is the value already passed through the encoder (\<open>Inl\<close> its error).
\<close>

definition respondJSON :: "world \<Rightarrow> nat \<Rightarrow> string + json \<Rightarrow> response \<times> world" where
  "respondJSON w st v =
     (case v of
        Inr j \<Rightarrow> (\<lparr>status = st, content_type = Some ''application/json'', body = Some j\<rparr>, w)
      | Inl err \<Rightarrow>
          (\<lparr>status = st, content_type = Some ''application/json'', body = None\<rparr>,
           w\<lparr>logged := logged w @ [''write response: '' @ err]\<rparr>))"

definition respondError :: "world \<Rightarrow> nat \<Rightarrow> string \<Rightarrow> response \<times> world" where
  "respondError w st msg = respondJSON w st (encode_error msg)"

definition respondInternalError :: "world \<Rightarrow> string \<Rightarrow> response \<times> world" where
  "respondInternalError w err =
     respondError (w\<lparr>logged := logged w @ [''internal error: '' @ err]\<rparr>)
       500 ''internal server error''"

section \<open>Standard library: path and id parsing\<close>

text \<open>\<open>strings.TrimPrefix\<close>: the string without the prefix, or the string itself.\<close>

fun TrimPrefix :: "string \<Rightarrow> string \<Rightarrow> string" where
  "TrimPrefix s prefix =
     (if take (length prefix) s = prefix then drop (length prefix) s else s)"

text \<open>
  \<open>strconv.ParseUint(s, 10, 64)\<close> and \<open>strconv.ParseInt(s, 10, 64)\<close>, the only way the
  source calls them. The accumulator is a \<open>uint64\<close>, here an \<open>int\<close>: the multiplication is guarded by
  \<open>cutoff\<close> and the wrap-around of the addition is written out. On a range error
  \<open>ParseUint\<close> returns the largest value together with the error, and \<open>ParseInt\<close> goes on
  to its own range check with it.
\<close>

datatype parse_error = ErrSyntax | ErrRange

definition maxUint64 :: int where
  "maxUint64 = 2 ^ 64 - 1"

definition cutoff10 :: int where
  "cutoff10 = maxUint64 div 10 + 1"

definition is_digit :: "char \<Rightarrow> bool" where
  "is_digit c \<longleftrightarrow> 48 \<le> (of_char c :: int) \<and> (of_char c :: int) \<le> 57"

definition digit_of :: "char \<Rightarrow> int" where
  "digit_of c = of_char c - 48"

fun ParseUint_loop :: "int \<Rightarrow> string \<Rightarrow> int \<times> parse_error option" where
  "ParseUint_loop n [] = (n, None)"
| "ParseUint_loop n (c # cs) =
     (if \<not> is_digit c then (0, Some ErrSyntax)
      else if n \<ge> cutoff10 then (maxUint64, Some ErrRange)
      else
        (let m = n * 10;
             n1 = (m + digit_of c) mod 2 ^ 64
         in if n1 < m \<or> n1 > maxUint64 then (maxUint64, Some ErrRange)
            else ParseUint_loop n1 cs))"

definition ParseUint :: "string \<Rightarrow> int \<times> parse_error option" where
  "ParseUint s = (if s = [] then (0, Some ErrSyntax) else ParseUint_loop 0 s)"

definition ParseInt :: "string \<Rightarrow> parse_error + int" where
  "ParseInt s =
     (if s = [] then Inl ErrSyntax
      else
        (let neg = (hd s = CHR ''-'');
             s1 = (if hd s = CHR ''+'' \<or> hd s = CHR ''-'' then tl s else s)
         in case ParseUint s1 of
              (_, Some ErrSyntax) \<Rightarrow> Inl ErrSyntax
            | (un, _) \<Rightarrow>
                if \<not> neg \<and> un \<ge> 2 ^ 63 then Inl ErrRange
                else if neg \<and> un > 2 ^ 63 then Inl ErrRange
                else Inr (if neg then - un else un)))"

section \<open>The SQL statements of the handlers\<close>

text \<open>
  Sending a statement: it is recorded, and when the driver fails the statement has no
  effect and the error is the result. Every reason the database may have to refuse a
  statement other than the primary key (a value the column cannot hold, an exhausted
  sequence, a lost connection) reaches the handler this way, as \<open>stmt_err\<close>.
\<close>

definition db_call ::
  "env \<Rightarrow> stmt \<Rightarrow> world \<Rightarrow> (world \<Rightarrow> (string + 'a) \<times> world) \<Rightarrow> (string + 'a) \<times> world" where
  "db_call e q w run =
     (let w1 = w\<lparr>stmts := stmts w @ [q]\<rparr> in
      case stmt_err e of Some err \<Rightarrow> (Inl err, w1) | None \<Rightarrow> run w1)"

text \<open>\<open>SELECT ... FROM books ORDER BY id\<close> (line 113).\<close>

definition select_all :: "world \<Rightarrow> (string + Book list) \<times> world" where
  "select_all w = (Inr (sort_key ID (books w)), w)"

text \<open>\<open>SELECT ... FROM books WHERE id = $1\<close> (line 135).\<close>

definition select_by_id :: "int \<Rightarrow> world \<Rightarrow> (string + Book list) \<times> world" where
  "select_by_id i w = (Inr (filter (\<lambda>b. ID b = i) (books w)), w)"

text \<open>
  \<open>INSERT INTO books (title, author) VALUES ($1, $2) RETURNING ...\<close> (line 161): the id is
  the next value of the sequence, both timestamps default to the one \<open>NOW()\<close> of the
  statement, and the primary key rejects an id that is already in the table (the sequence
  keeps the value it handed out).
\<close>

definition insert_book :: "int \<Rightarrow> string \<Rightarrow> string \<Rightarrow> world \<Rightarrow> (string + Book list) \<times> world" where
  "insert_book t ti au w =
     (let i = books_id_seq w + 1;
          w1 = w\<lparr>books_id_seq := i\<rparr>;
          b = \<lparr>ID = i, Title = ti, Author = au, CreatedAt = t, UpdatedAt = t\<rparr>
      in if i \<in> set (map ID (books w))
         then (Inl ''pq: duplicate key value violates unique constraint'', w1)
         else (Inr [b], w1\<lparr>books := books w @ [b]\<rparr>))"

text \<open>
  \<open>UPDATE books SET title = $1, author = $2, updated_at = NOW() WHERE id = $3
  RETURNING ...\<close> (line 184): the rows returned are the updated ones.
\<close>

definition set_book :: "int \<Rightarrow> string \<Rightarrow> string \<Rightarrow> Book \<Rightarrow> Book" where
  "set_book t ti au b = b\<lparr>Title := ti, Author := au, UpdatedAt := t\<rparr>"

definition update_book ::
  "int \<Rightarrow> string \<Rightarrow> string \<Rightarrow> int \<Rightarrow> world \<Rightarrow> (string + Book list) \<times> world" where
  "update_book t ti au i w =
     (Inr (map (set_book t ti au) (filter (\<lambda>b. ID b = i) (books w))),
      w\<lparr>books := map (\<lambda>b. if ID b = i then set_book t ti au b else b) (books w)\<rparr>)"

text \<open>\<open>DELETE FROM books WHERE id = $1\<close> (line 199), with the number of rows removed.\<close>

definition delete_book :: "int \<Rightarrow> world \<Rightarrow> (string + int) \<times> world" where
  "delete_book i w =
     (Inr (int (length (filter (\<lambda>b. ID b = i) (books w)))),
      w\<lparr>books := filter (\<lambda>b. ID b \<noteq> i) (books w)\<rparr>)"

text \<open>
  \<open>QueryRow(...).Scan\<close>: the error of the statement if there is one, \<open>sql.ErrNoRows\<close> when
  the result is empty, the first row otherwise. \<open>Error\<close> is the text of the error.
\<close>

datatype scan_error = ErrNoRows | DriverError string

definition Row_Scan :: "string + Book list \<Rightarrow> scan_error + Book" where
  "Row_Scan r =
     (case r of
        Inl err \<Rightarrow> Inl (DriverError err)
      | Inr [] \<Rightarrow> Inl ErrNoRows
      | Inr (b # _) \<Rightarrow> Inr b)"

fun Error :: "scan_error \<Rightarrow> string" where
  "Error ErrNoRows = ''sql: no rows in result set''"
| "Error (DriverError err) = err"

text \<open>
  \<open>res.RowsAffected()\<close>: the count of the statement, or what a failing driver returns,
  a count of its own together with the error.
\<close>

definition RowsAffected :: "env \<Rightarrow> int \<Rightarrow> int \<times> string option" where
  "RowsAffected e n =
     (case affected_err e of None \<Rightarrow> (n, None) | Some (c, err) \<Rightarrow> (c, Some err))"

section \<open>Handlers (lines 112-210)\<close>

text \<open>\<open>append\<close> on a slice that may be nil.\<close>

definition append_Book :: "Book list option \<Rightarrow> Book \<Rightarrow> Book list option" where
  "append_Book s b = (case s of None \<Rightarrow> Some [b] | Some xs \<Rightarrow> Some (xs @ [b]))"

text \<open>
  The loop of \<open>listBooks\<close> (lines 120-128) over the rows of the result, \<open>k\<close> the index of
  the row at hand. When \<open>rows.Next()\<close> returns false the loop ends, whether the rows are
  exhausted or the iteration failed: the source does not read \<open>rows.Err()\<close>.
\<close>

fun scan_rows :: "env \<Rightarrow> nat \<Rightarrow> Book list \<Rightarrow> Book list option \<Rightarrow> string + Book list option" where
  "scan_rows e k [] acc = Inr acc"
| "scan_rows e k (r # rs) acc =
     (if (case next_err e of None \<Rightarrow> False | Some (j, _) \<Rightarrow> j = k) then Inr acc
      else case (case scan_err e of None \<Rightarrow> None
                                  | Some (j, err) \<Rightarrow> if j = k then Some err else None) of
             Some err \<Rightarrow> Inl err
           | None \<Rightarrow> scan_rows e (Suc k) rs (append_Book acc r))"

definition listBooks :: "env \<Rightarrow> world \<Rightarrow> response \<times> world" where
  "listBooks e w =
     (case db_call e SelectAll w select_all of
        (Inl err, w1) \<Rightarrow> respondInternalError w1 err
      | (Inr rows, w1) \<Rightarrow>
          (case scan_rows e 0 rows None of
             Inl err \<Rightarrow> respondInternalError w1 err
           | Inr bs \<Rightarrow> respondJSON w1 200 (encode_Books bs)))"

definition getBook :: "env \<Rightarrow> world \<Rightarrow> int \<Rightarrow> response \<times> world" where
  "getBook e w i =
     (case db_call e (SelectByID i) w (select_by_id i) of
        (r, w1) \<Rightarrow>
          (case Row_Scan r of
             Inl ErrNoRows \<Rightarrow> respondError w1 404 ''book not found''
           | Inl err \<Rightarrow> respondInternalError w1 (Error err)
           | Inr b \<Rightarrow> respondJSON w1 200 (encode_Book b)))"

definition createBook :: "env \<Rightarrow> world \<Rightarrow> string \<Rightarrow> response \<times> world" where
  "createBook e w rbody =
     (case json_decode e rbody of
        Inl _ \<Rightarrow> respondError w 400 ''invalid JSON''
      | Inr payload \<Rightarrow>
          if payload_Title payload = [] \<or> payload_Author payload = []
          then respondError w 400 ''title and author are required''
          else
            (case db_call e (Insert (payload_Title payload) (payload_Author payload)) w
                    (insert_book (now e) (payload_Title payload) (payload_Author payload)) of
               (r, w1) \<Rightarrow>
                 (case Row_Scan r of
                    Inl err \<Rightarrow> respondInternalError w1 (Error err)
                  | Inr b \<Rightarrow> respondJSON w1 201 (encode_Book b))))"

definition updateBook :: "env \<Rightarrow> world \<Rightarrow> string \<Rightarrow> int \<Rightarrow> response \<times> world" where
  "updateBook e w rbody i =
     (case json_decode e rbody of
        Inl _ \<Rightarrow> respondError w 400 ''invalid JSON''
      | Inr payload \<Rightarrow>
          if payload_Title payload = [] \<or> payload_Author payload = []
          then respondError w 400 ''title and author are required''
          else
            (case db_call e (Update (payload_Title payload) (payload_Author payload) i) w
                    (update_book (now e) (payload_Title payload) (payload_Author payload) i) of
               (r, w1) \<Rightarrow>
                 (case Row_Scan r of
                    Inl ErrNoRows \<Rightarrow> respondError w1 404 ''book not found''
                  | Inl err \<Rightarrow> respondInternalError w1 (Error err)
                  | Inr b \<Rightarrow> respondJSON w1 200 (encode_Book b))))"

definition deleteBook :: "env \<Rightarrow> world \<Rightarrow> int \<Rightarrow> response \<times> world" where
  "deleteBook e w i =
     (case db_call e (Delete i) w (delete_book i) of
        (Inl err, w1) \<Rightarrow> respondInternalError w1 err
      | (Inr n, w1) \<Rightarrow>
          (let affected = fst (RowsAffected e n) in
           if affected = 0 then respondError w1 404 ''book not found''
           else (\<lparr>status = 204, content_type = None, body = None\<rparr>, w1)))"

section \<open>Request router (lines 81-110)\<close>

record request =
  Method :: string
  Path :: string
  Body :: string

definition handleBooks :: "env \<Rightarrow> world \<Rightarrow> request \<Rightarrow> response \<times> world" where
  "handleBooks e w r =
     (if Method r = ''GET'' then listBooks e w
      else if Method r = ''POST'' then createBook e w (Body r)
      else respondError w 405 ''method not allowed'')"

definition handleBookByID :: "env \<Rightarrow> world \<Rightarrow> request \<Rightarrow> response \<times> world" where
  "handleBookByID e w r =
     (case ParseInt (TrimPrefix (Path r) ''/books/'') of
        Inl _ \<Rightarrow> respondError w 400 ''invalid id''
      | Inr i \<Rightarrow>
          if Method r = ''GET'' then getBook e w i
          else if Method r = ''PUT'' then updateBook e w (Body r) i
          else if Method r = ''DELETE'' then deleteBook e w i
          else respondError w 405 ''method not allowed'')"

text \<open>
  The table after \<open>ensureSchema\<close> on a fresh database, and the invariant the primary key
  and the sequence maintain: the sequence starts at 1, ids are distinct and lie between 1 and the last sequence value.
\<close>

definition empty_world :: world where
  "empty_world = \<lparr>books = [], books_id_seq = 0, stmts = [], logged = []\<rparr>"

definition pkey_inv :: "world \<Rightarrow> bool" where
  "pkey_inv w \<longleftrightarrow>
     0 \<le> books_id_seq w \<and> distinct (map ID (books w)) \<and>
     list_all (\<lambda>b. 1 \<le> ID b \<and> ID b \<le> books_id_seq w) (books w)"

section \<open>Reference notions and sample inputs\<close>

text \<open>
  What "parses as a base-10 integer" means, independently of the parser: an optional
  sign, then at least one decimal digit and nothing else; \<open>dec_val\<close> is the number the
  digits denote.
\<close>

definition dec_val :: "int \<Rightarrow> string \<Rightarrow> int" where
  "dec_val n cs = foldl (\<lambda>a c. a * 10 + digit_of c) n cs"

definition int_literal :: "string \<Rightarrow> int option" where
  "int_literal s =
     (case s of
        [] \<Rightarrow> None
      | c # cs \<Rightarrow>
          (let ds = (if c = CHR ''+'' \<or> c = CHR ''-'' then cs else s) in
           if ds \<noteq> [] \<and> list_all is_digit ds
           then Some (if c = CHR ''-'' then - dec_val 0 ds else dec_val 0 ds)
           else None))"

text \<open>
  Sample inputs. \<open>decode0\<close> stands for \<open>encoding/json\<close> on three request bodies: a valid
  payload, a payload with an empty title, and a body that is not JSON.
\<close>

definition decode0 :: "string \<Rightarrow> string + bookPayload" where
  "decode0 s =
     (if s = ''dune'' then Inr \<lparr>payload_Title = ''Dune'', payload_Author = ''Herbert''\<rparr>
      else if s = ''untitled'' then Inr \<lparr>payload_Title = [], payload_Author = ''X''\<rparr>
      else Inl ''invalid character'')"

definition env0 :: env where
  "env0 = \<lparr>json_decode = decode0, now = 1000, stmt_err = None, scan_err = None,
            next_err = None, affected_err = None\<rparr>"

definition dune :: Book where
  "dune = \<lparr>ID = 1, Title = ''Dune'', Author = ''Herbert'', CreatedAt = 1000, UpdatedAt = 1000\<rparr>"

definition world1 :: world where
  "world1 = \<lparr>books = [dune], books_id_seq = 1, stmts = [], logged = []\<rparr>"

text \<open>
  Failing drivers: the count comes with an error (with the count 1, with the count 0), the
  iteration breaks off before the second row.
\<close>

definition env_affected :: env where
  "env_affected = env0\<lparr>affected_err := Some (1, ''driver: bad connection'')\<rparr>"

definition env_affected0 :: env where
  "env_affected0 = env0\<lparr>affected_err := Some (0, ''driver: bad connection'')\<rparr>"

definition env_next :: env where
  "env_next = env0\<lparr>next_err := Some (1, ''unexpected EOF'')\<rparr>"

definition hobbit :: Book where
  "hobbit = \<lparr>ID = 2, Title = ''The Hobbit'', Author = ''Tolkien'', CreatedAt = 1500,
              UpdatedAt = 1500\<rparr>"

definition world2 :: world where
  "world2 = \<lparr>books = [hobbit, dune], books_id_seq = 2, stmts = [], logged = []\<rparr>"

text \<open>The timestamps \<open>encoding/json\<close> can write.\<close>

definition json_time_ok :: "int \<Rightarrow> bool" where
  "json_time_ok t \<longleftrightarrow> year0 \<le> t \<and> t < year10000"

section \<open>The id parser accepts exactly the 64-bit decimal literals\<close>

lemma dec_val_simps [simp]:
  "dec_val n [] = n" "dec_val n (c # cs) = dec_val (n * 10 + digit_of c) cs"
  by (simp_all add: dec_val_def)

lemma digit_of_range: "is_digit c \<Longrightarrow> 0 \<le> digit_of c \<and> digit_of c \<le> 9"
  by (simp add: is_digit_def digit_of_def)

lemma dec_val_mono: "0 \<le> n \<Longrightarrow> list_all is_digit cs \<Longrightarrow> n \<le> dec_val n cs"
proof (induction cs arbitrary: n)
  case Nil
  then show ?case by simp
next
  case (Cons c cs)
  have d: "0 \<le> digit_of c" using Cons.prems digit_of_range by simp
  have "n \<le> n * 10 + digit_of c" using Cons.prems(1) d by arith
  moreover have "n * 10 + digit_of c \<le> dec_val (n * 10 + digit_of c) cs"
    using Cons.IH [of "n * 10 + digit_of c"] Cons.prems d by simp
  ultimately show ?case by simp
qed

lemma loop_ok:
  "0 \<le> n \<Longrightarrow> list_all is_digit cs \<Longrightarrow> dec_val n cs < 2 ^ 64 \<Longrightarrow>
   ParseUint_loop n cs = (dec_val n cs, None)"
proof (induction cs arbitrary: n)
  case Nil
  then show ?case by simp
next
  case (Cons c cs)
  let ?m = "n * 10 + digit_of c"
  have d: "0 \<le> digit_of c" "digit_of c \<le> 9" using Cons.prems digit_of_range by simp_all
  have m0: "0 \<le> ?m" using Cons.prems(1) d by arith
  have "?m \<le> dec_val ?m cs" using dec_val_mono [OF m0] Cons.prems by simp
  then have mlt: "?m < 2 ^ 64" using Cons.prems(3) by simp
  then have ncut: "\<not> cutoff10 \<le> n" using d by (simp add: cutoff10_def maxUint64_def)
  have md: "?m mod 2 ^ 64 = ?m" using m0 mlt by simp
  have "ParseUint_loop ?m cs = (dec_val ?m cs, None)"
    using Cons.IH [OF m0] Cons.prems by simp
  then show ?case using Cons.prems(2) ncut md d mlt
    by (simp add: Let_def maxUint64_def)
qed

lemma loop_range:
  "0 \<le> n \<Longrightarrow> n < 2 ^ 64 \<Longrightarrow> list_all is_digit cs \<Longrightarrow> 2 ^ 64 \<le> dec_val n cs \<Longrightarrow>
   ParseUint_loop n cs = (maxUint64, Some ErrRange)"
proof (induction cs arbitrary: n)
  case Nil
  then show ?case by simp
next
  case (Cons c cs)
  let ?m = "n * 10 + digit_of c"
  have d: "0 \<le> digit_of c" "digit_of c \<le> 9" using Cons.prems digit_of_range by simp_all
  have m0: "0 \<le> ?m" using Cons.prems(1) d by arith
  show ?case
  proof (cases "cutoff10 \<le> n")
    case True
    then show ?thesis using Cons.prems(3) by simp
  next
    case False
    then have n10: "n * 10 < 2 ^ 64" by (simp add: cutoff10_def maxUint64_def)
    show ?thesis
    proof (cases "?m < 2 ^ 64")
      case True
      then have md: "?m mod 2 ^ 64 = ?m" using m0 by simp
      have "ParseUint_loop ?m cs = (maxUint64, Some ErrRange)"
        using Cons.IH [OF m0 True] Cons.prems by simp
      then show ?thesis using False md d True Cons.prems(3)
        by (simp add: Let_def maxUint64_def)
    next
      case False2: False
      have lo: "0 \<le> ?m - 2 ^ 64" using False2 by simp
      have hi: "?m - 2 ^ 64 < 2 ^ 64" using n10 d by simp
      have "?m mod 2 ^ 64 = (?m - 2 ^ 64) mod 2 ^ 64" by (simp only: minus_mod_self2)
      also have "\<dots> = ?m - 2 ^ 64" using lo hi by (rule mod_pos_pos_trivial)
      finally have "?m mod 2 ^ 64 = ?m - 2 ^ 64" .
      then have "?m mod 2 ^ 64 < n * 10" using d by simp
      then show ?thesis using False Cons.prems(3) by (simp add: Let_def)
    qed
  qed
qed

lemma loop_syntax:
  "\<not> list_all is_digit cs \<Longrightarrow> snd (ParseUint_loop n cs) \<noteq> None"
  by (induction cs arbitrary: n) (auto simp: Let_def)

lemma loop_err_range:
  "snd (ParseUint_loop n cs) \<noteq> Some ErrSyntax \<Longrightarrow> snd (ParseUint_loop n cs) \<noteq> None \<Longrightarrow>
   ParseUint_loop n cs = (maxUint64, Some ErrRange)"
  by (induction cs arbitrary: n) (auto simp: Let_def split: if_splits)

lemma ParseUint_spec:
  "ParseUint ds = (v, None) \<longleftrightarrow>
     ds \<noteq> [] \<and> list_all is_digit ds \<and> dec_val 0 ds = v \<and> v < 2 ^ 64"
proof (cases "ds = []")
  case True
  then show ?thesis by (simp add: ParseUint_def)
next
  case ne: False
  show ?thesis
  proof (cases "list_all is_digit ds")
    case False
    then show ?thesis using loop_syntax [OF False, of 0] ne
      by (auto simp: ParseUint_def)
  next
    case True
    show ?thesis
    proof (cases "dec_val 0 ds < 2 ^ 64")
      case lt: True
      show ?thesis using loop_ok [OF _ True lt] ne True lt by (auto simp: ParseUint_def)
    next
      case False
      then show ?thesis using loop_range [of 0 ds] ne True by (auto simp: ParseUint_def)
    qed
  qed
qed

lemma ParseInt_spec:
  "ParseInt s = Inr v \<longleftrightarrow> int_literal s = Some v \<and> - (2 ^ 63) \<le> v \<and> v < 2 ^ 63"
proof (cases s)
  case Nil
  then show ?thesis by (simp add: ParseInt_def int_literal_def)
next
  case (Cons c cs)
  let ?ds = "if c = CHR ''+'' \<or> c = CHR ''-'' then cs else s"
  obtain un er where pu: "ParseUint ?ds = (un, er)" by (cases "ParseUint ?ds")
  show ?thesis
  proof (cases er)
    case None
    then have ok: "?ds \<noteq> []" "list_all is_digit ?ds" "dec_val 0 ?ds = un" "un < 2 ^ 64"
      using pu ParseUint_spec [of ?ds un] by simp_all
    have un0: "0 \<le> un" using dec_val_mono [of 0 ?ds] ok by simp
    show ?thesis using Cons pu None ok un0
      by (auto simp: ParseInt_def int_literal_def Let_def split: if_splits)
  next
    case (Some x)
    then have nok: "\<not> (?ds \<noteq> [] \<and> list_all is_digit ?ds \<and> dec_val 0 ?ds < 2 ^ 64)"
      using pu ParseUint_spec [of ?ds "dec_val 0 ?ds"] by auto
    have rng: "x = ErrRange \<Longrightarrow> un = maxUint64"
      using pu Some loop_err_range [of 0 ?ds] by (auto simp: ParseUint_def split: if_splits)
    show ?thesis
    proof (cases x)
      case ErrSyntax
      then show ?thesis using Cons pu Some nok
        by (auto simp: ParseInt_def int_literal_def Let_def split: if_splits)
    next
      case ErrRange
      then show ?thesis using Cons pu Some nok rng
        by (auto simp: ParseInt_def int_literal_def Let_def maxUint64_def split: if_splits)
    qed
  qed
qed

section \<open>Helper lemmas about the responses and the table\<close>

lemma respondError_eq:
  "respondError w st msg =
     (\<lparr>status = st, content_type = Some ''application/json'',
       body = Some (JObject [(''error'', JString msg)])\<rparr>, w)"
  by (simp add: respondError_def respondJSON_def encode_error_def)

lemma respondInternalError_eq:
  "respondInternalError w err =
     (\<lparr>status = 500, content_type = Some ''application/json'',
       body = Some (JObject [(''error'', JString ''internal server error'')])\<rparr>,
      w\<lparr>logged := logged w @ [''internal error: '' @ err]\<rparr>)"
  by (simp add: respondInternalError_def respondError_eq)

lemma encode_Book_ok:
  "json_time_ok (CreatedAt b) \<Longrightarrow> json_time_ok (UpdatedAt b) \<Longrightarrow>
   encode_Book b =
     Inr (JObject [(''id'', JInt (ID b)), (''title'', JString (Title b)),
                   (''author'', JString (Author b)), (''created_at'', JTime (CreatedAt b)),
                   (''updated_at'', JTime (UpdatedAt b))])"
  by (simp add: encode_Book_def marshal_Time_def json_time_ok_def)

lemma encode_elems_ok:
  "list_all (\<lambda>b. json_time_ok (CreatedAt b) \<and> json_time_ok (UpdatedAt b)) xs \<Longrightarrow>
   encode_elems xs =
     Inr (map (\<lambda>b. JObject [(''id'', JInt (ID b)), (''title'', JString (Title b)),
                             (''author'', JString (Author b)),
                             (''created_at'', JTime (CreatedAt b)),
                             (''updated_at'', JTime (UpdatedAt b))]) xs)"
  by (induction xs) (simp_all add: encode_Book_ok)

text \<open>
  The other path of \<open>respondJSON\<close>: a record with a timestamp outside the years 0..9999
  does not encode, so the status goes out with an empty body and the error is logged.
\<close>

lemma respondJSON_encode_failure:
  "\<not> json_time_ok (CreatedAt b) \<Longrightarrow>
   respondJSON w st (encode_Book b) =
     (\<lparr>status = st, content_type = Some ''application/json'', body = None\<rparr>,
      w\<lparr>logged := logged w @
           [''write response: json: error calling MarshalJSON for type time.Time: '' @
            ''Time.MarshalJSON: year outside of range [0,9999]'']\<rparr>)"
  by (auto simp: respondJSON_def encode_Book_def marshal_Time_def json_time_ok_def)

lemma status_respondJSON [simp]: "status (fst (respondJSON w st v)) = st"
  by (simp add: respondJSON_def split: sum.splits)

lemma scan_rows_no_fault:
  "scan_err e = None \<Longrightarrow> next_err e = None \<Longrightarrow>
   scan_rows e k rs acc =
     Inr (if rs = [] then acc else Some ((case acc of None \<Rightarrow> [] | Some xs \<Rightarrow> xs) @ rs))"
  by (induction rs arbitrary: k acc) (auto simp: append_Book_def split: option.splits)

lemma sort_key_Nil_iff: "sort_key f xs = [] \<longleftrightarrow> xs = []"
  by (metis length_0_conv length_sort)

lemma filter_ID_unique:
  "distinct (map ID xs) \<Longrightarrow> b \<in> set xs \<Longrightarrow> filter (\<lambda>x. ID x = ID b) xs = [b]"
proof (induction xs)
  case Nil
  then show ?case by simp
next
  case (Cons x xs)
  have nx: "\<forall>y \<in> set xs. ID y \<noteq> ID x" using Cons.prems(1) by (auto simp: image_iff)
  show ?case
  proof (cases "x = b")
    case True
    then have "filter (\<lambda>x. ID x = ID b) xs = []" using nx by (simp add: filter_empty_conv)
    then show ?thesis using True by simp
  next
    case False
    then have "b \<in> set xs" using Cons.prems by simp
    moreover from this have "ID x \<noteq> ID b" using nx by auto
    ultimately show ?thesis using Cons by simp
  qed
qed

lemma filter_ID_absent:
  "i \<notin> ID ` set xs \<Longrightarrow> filter (\<lambda>x. ID x = i) xs = []"
  by (auto simp: filter_empty_conv)

lemma filter_filter_ID: "filter (\<lambda>x. ID x = i) (filter (\<lambda>b. ID b \<noteq> i) xs) = []"
  by (simp add: filter_empty_conv)

lemma filter_ID_Nil_iff: "filter (\<lambda>x. ID x = i) xs = [] \<longleftrightarrow> i \<notin> ID ` set xs"
  by (auto simp: filter_empty_conv)

lemma pkey_inv_fresh: "pkey_inv w \<Longrightarrow> books_id_seq w + 1 \<notin> ID ` set (books w)"
  by (auto simp: pkey_inv_def list_all_iff)

section \<open>List\<close>

text \<open>
  Without a driver failure \<open>listBooks\<close> answers 200, and when every timestamp is one that
  \<open>encoding/json\<close> can write, the body holds the rows of the table in ascending id order,
  a permutation of the table: as an array when the table has rows, as \<open>null\<close> when it has
  none, since the slice is then never allocated.
\<close>

lemma listBooks_sorted:
  assumes "no_fault e"
    and "list_all (\<lambda>b. json_time_ok (CreatedAt b) \<and> json_time_ok (UpdatedAt b)) (books w)"
  shows "listBooks e w =
           (\<lparr>status = 200, content_type = Some ''application/json'',
             body = Some (if books w = [] then JNull
                          else JArray (map (\<lambda>b. JObject [(''id'', JInt (ID b)),
                                 (''title'', JString (Title b)), (''author'', JString (Author b)),
                                 (''created_at'', JTime (CreatedAt b)),
                                 (''updated_at'', JTime (UpdatedAt b))])
                               (sort_key ID (books w))))\<rparr>,
            w\<lparr>stmts := stmts w @ [SelectAll]\<rparr>)"
    and "sorted (map ID (sort_key ID (books w)))"
    and "mset (sort_key ID (books w)) = mset (books w)"
proof -
  have "list_all (\<lambda>b. json_time_ok (CreatedAt b) \<and> json_time_ok (UpdatedAt b))
          (sort_key ID (books w))"
    using assms(2) by (simp add: list_all_iff)
  then show "listBooks e w =
           (\<lparr>status = 200, content_type = Some ''application/json'',
             body = Some (if books w = [] then JNull
                          else JArray (map (\<lambda>b. JObject [(''id'', JInt (ID b)),
                                 (''title'', JString (Title b)), (''author'', JString (Author b)),
                                 (''created_at'', JTime (CreatedAt b)),
                                 (''updated_at'', JTime (UpdatedAt b))])
                               (sort_key ID (books w))))\<rparr>,
            w\<lparr>stmts := stmts w @ [SelectAll]\<rparr>)"
    using assms(1)
    by (simp add: no_fault_def listBooks_def db_call_def select_all_def scan_rows_no_fault
        sort_key_Nil_iff encode_Books_def encode_elems_ok respondJSON_def)
qed simp_all

text \<open>
  C1, at the empty table, where the source departs from "an empty JSON array": the slice
  \<open>books\<close> is declared without a value (line 120) and only \<open>append\<close> allocates it, so
  with no rows the nil slice is encoded. \<open>listBooks\<close> sends its one statement and answers
  200 with the JSON value \<open>null\<close> as body, not an array.
\<close>

theorem listBooks_empty_table_null:
  "listBooks env0 empty_world =
     (\<lparr>status = 200, content_type = Some ''application/json'', body = Some JNull\<rparr>,
      empty_world\<lparr>stmts := [SelectAll]\<rparr>)"
  by (simp add: listBooks_def db_call_def select_all_def env0_def empty_world_def
      encode_Books_def respondJSON_def)

section \<open>Validation\<close>

text \<open>
  C2: when the body of a Create or Update request does not decode, or decodes with an
  empty title or an empty author, the handler answers 400 with the envelope
  \<open>invalid JSON\<close> or \<open>title and author are required\<close>, and the world is the one it
  started from: no statement was sent, no row changed, nothing was logged.
\<close>

theorem invalid_body_rejected:
  assumes "(\<exists>err. json_decode e rbody = Inl err) \<or>
           (\<exists>p. json_decode e rbody = Inr p \<and> (payload_Title p = [] \<or> payload_Author p = []))"
  shows "createBook e w rbody = updateBook e w rbody i \<and>
         snd (createBook e w rbody) = w \<and>
         fst (createBook e w rbody) \<in>
           {\<lparr>status = 400, content_type = Some ''application/json'',
             body = Some (JObject [(''error'', JString ''invalid JSON'')])\<rparr>,
            \<lparr>status = 400, content_type = Some ''application/json'',
             body = Some (JObject [(''error'', JString ''title and author are required'')])\<rparr>}"
  using assms
  by (auto simp: createBook_def updateBook_def respondError_eq)

theorem invalid_body_rejected_witness:
  "(\<exists>p. json_decode env0 ''untitled'' = Inr p \<and> (payload_Title p = [] \<or> payload_Author p = [])) \<and>
   updateBook env0 world1 ''untitled'' 1 =
     (\<lparr>status = 400, content_type = Some ''application/json'',
       body = Some (JObject [(''error'', JString ''title and author are required'')])\<rparr>, world1)"
proof -
  have h: "\<exists>p. json_decode env0 ''untitled'' = Inr p \<and> (payload_Title p = [] \<or> payload_Author p = [])"
    by (simp add: env0_def decode0_def)
  from h invalid_body_rejected [of env0 "''untitled''" world1 1]
  show ?thesis
    by (simp add: createBook_def env0_def decode0_def respondError_eq)
qed

section \<open>Create, then Get\<close>

text \<open>
  C3: for a valid payload, when the driver reports no failure and the \<open>NOW()\<close> of the
  statement is a timestamp \<open>encoding/json\<close> can write, \<open>createBook\<close> on a table that
  satisfies the key invariant answers 201 with the populated record as JSON body (the next
  id of the sequence, the payload's title and author, \<open>created_at\<close> and \<open>updated_at\<close>
  both that \<open>NOW()\<close>, hence equal) and appends that row to the table; \<open>getBook\<close> on the
  returned id right afterwards answers 200 with the same body.
\<close>

theorem create_then_get:
  assumes "pkey_inv w" and "json_decode e rbody = Inr p"
    and "payload_Title p \<noteq> []" and "payload_Author p \<noteq> []"
    and "stmt_err e = None" and "stmt_err e' = None" and "json_time_ok (now e)"
  shows "createBook e w rbody =
           (\<lparr>status = 201, content_type = Some ''application/json'',
             body = Some (JObject [(''id'', JInt (books_id_seq w + 1)),
                                   (''title'', JString (payload_Title p)),
                                   (''author'', JString (payload_Author p)),
                                   (''created_at'', JTime (now e)),
                                   (''updated_at'', JTime (now e))])\<rparr>,
            w\<lparr>stmts := stmts w @ [Insert (payload_Title p) (payload_Author p)],
               books_id_seq := books_id_seq w + 1,
               books := books w @ [\<lparr>ID = books_id_seq w + 1, Title = payload_Title p,
                                    Author = payload_Author p, CreatedAt = now e,
                                    UpdatedAt = now e\<rparr>]\<rparr>) \<and>
         fst (getBook e' (snd (createBook e w rbody)) (books_id_seq w + 1)) =
           \<lparr>status = 200, content_type = Some ''application/json'',
            body = Some (JObject [(''id'', JInt (books_id_seq w + 1)),
                                  (''title'', JString (payload_Title p)),
                                  (''author'', JString (payload_Author p)),
                                  (''created_at'', JTime (now e)),
                                  (''updated_at'', JTime (now e))])\<rparr>"
proof -
  let ?b = "\<lparr>ID = books_id_seq w + 1, Title = payload_Title p, Author = payload_Author p,
              CreatedAt = now e, UpdatedAt = now e\<rparr>"
  let ?w' = "w\<lparr>stmts := stmts w @ [Insert (payload_Title p) (payload_Author p)],
               books_id_seq := books_id_seq w + 1, books := books w @ [?b]\<rparr>"
  have fresh: "books_id_seq w + 1 \<notin> ID ` set (books w)" using assms(1) by (rule pkey_inv_fresh)
  have enc: "encode_Book ?b =
               Inr (JObject [(''id'', JInt (books_id_seq w + 1)),
                             (''title'', JString (payload_Title p)),
                             (''author'', JString (payload_Author p)),
                             (''created_at'', JTime (now e)),
                             (''updated_at'', JTime (now e))])"
    using assms(7) by (simp add: encode_Book_ok)
  have c: "createBook e w rbody = respondJSON ?w' 201 (encode_Book ?b)"
    using assms fresh
    by (simp add: createBook_def db_call_def insert_book_def Row_Scan_def Let_def)
  have "filter (\<lambda>x. ID x = books_id_seq w + 1) (books w) = []"
    using fresh by (rule filter_ID_absent)
  then have g: "getBook e' ?w' (books_id_seq w + 1) =
                  respondJSON (?w'\<lparr>stmts := stmts ?w' @ [SelectByID (books_id_seq w + 1)]\<rparr>)
                    200 (encode_Book ?b)"
    using assms(6) by (simp add: getBook_def db_call_def select_by_id_def Row_Scan_def)
  have c': "snd (createBook e w rbody) = ?w'" using c enc by (simp add: respondJSON_def)
  show ?thesis using c enc g unfolding c' by (simp add: respondJSON_def)
qed

theorem create_then_get_witness:
  "pkey_inv empty_world \<and>
   json_decode env0 ''dune'' = Inr \<lparr>payload_Title = ''Dune'', payload_Author = ''Herbert''\<rparr> \<and>
   json_time_ok (now env0) \<and>
   createBook env0 empty_world ''dune'' =
     (\<lparr>status = 201, content_type = Some ''application/json'',
       body = Some (JObject [(''id'', JInt 1), (''title'', JString ''Dune''),
                             (''author'', JString ''Herbert''), (''created_at'', JTime 1000),
                             (''updated_at'', JTime 1000)])\<rparr>,
      \<lparr>books = [dune], books_id_seq = 1, stmts = [Insert ''Dune'' ''Herbert''], logged = []\<rparr>) \<and>
   fst (getBook env0 (snd (createBook env0 empty_world ''dune'')) 1) =
     \<lparr>status = 200, content_type = Some ''application/json'',
      body = Some (JObject [(''id'', JInt 1), (''title'', JString ''Dune''),
                            (''author'', JString ''Herbert''), (''created_at'', JTime 1000),
                            (''updated_at'', JTime 1000)])\<rparr>"
proof -
  have h1: "pkey_inv empty_world" by (simp add: pkey_inv_def empty_world_def)
  have h2: "json_decode env0 ''dune'' = Inr \<lparr>payload_Title = ''Dune'', payload_Author = ''Herbert''\<rparr>"
    by (simp add: env0_def decode0_def)
  have h3: "stmt_err env0 = None" by (simp add: env0_def)
  have h4: "json_time_ok (now env0)"
    by (simp add: env0_def json_time_ok_def year0_def year10000_def)
  have t: "payload_Title \<lparr>payload_Title = ''Dune'', payload_Author = ''Herbert''\<rparr> \<noteq> []"
    "payload_Author \<lparr>payload_Title = ''Dune'', payload_Author = ''Herbert''\<rparr> \<noteq> []"
    by simp_all
  note r = create_then_get [OF h1 h2 t h3 h3 h4]
  have c: "createBook env0 empty_world ''dune'' =
     (\<lparr>status = 201, content_type = Some ''application/json'',
       body = Some (JObject [(''id'', JInt 1), (''title'', JString ''Dune''),
                             (''author'', JString ''Herbert''), (''created_at'', JTime 1000),
                             (''updated_at'', JTime 1000)])\<rparr>,
      \<lparr>books = [dune], books_id_seq = 1, stmts = [Insert ''Dune'' ''Herbert''], logged = []\<rparr>)"
    using conjunct1 [OF r] by (simp add: dune_def empty_world_def env0_def)
  have g: "fst (getBook env0 (snd (createBook env0 empty_world ''dune'')) 1) =
     \<lparr>status = 200, content_type = Some ''application/json'',
      body = Some (JObject [(''id'', JInt 1), (''title'', JString ''Dune''),
                            (''author'', JString ''Herbert''), (''created_at'', JTime 1000),
                            (''updated_at'', JTime 1000)])\<rparr>"
    using conjunct2 [OF r] by (simp add: empty_world_def env0_def)
  show ?thesis using h1 h2 h4 c g by simp
qed

section \<open>Update\<close>

text \<open>
  C4, as the source has it: for a valid payload and no driver failure, \<open>updateBook\<close> on
  the id of an existing record answers 200 and replaces the row: in the table afterwards
  every row with that id has the request's title and author and the \<open>NOW()\<close> of the
  statement as \<open>updated_at\<close>, with id and \<open>created_at\<close> as they were, and every other row
  is untouched. So \<open>updated_at\<close> is strictly later than before whenever that \<open>NOW()\<close> is
  later than the stored value. When the timestamps are ones \<open>encoding/json\<close> can write the
  body is the updated record. On an id that no row has the answer is 404 and the table is
  unchanged.
\<close>

theorem update_sets_fields:
  assumes "json_decode e rbody = Inr p" and "payload_Title p \<noteq> []" and "payload_Author p \<noteq> []"
    and "stmt_err e = None"
  shows "(pkey_inv w \<and> b \<in> set (books w) \<longrightarrow>
            status (fst (updateBook e w rbody (ID b))) = 200 \<and>
            books (snd (updateBook e w rbody (ID b))) =
              map (\<lambda>x. if ID x = ID b
                        then \<lparr>ID = ID x, Title = payload_Title p, Author = payload_Author p,
                              CreatedAt = CreatedAt x, UpdatedAt = now e\<rparr>
                        else x) (books w) \<and>
            (UpdatedAt b < now e \<longrightarrow>
               (\<forall>x \<in> set (books (snd (updateBook e w rbody (ID b)))).
                  ID x = ID b \<longrightarrow> UpdatedAt b < UpdatedAt x)) \<and>
            (json_time_ok (CreatedAt b) \<and> json_time_ok (now e) \<longrightarrow>
               fst (updateBook e w rbody (ID b)) =
                 \<lparr>status = 200, content_type = Some ''application/json'',
                  body = Some (JObject [(''id'', JInt (ID b)),
                                        (''title'', JString (payload_Title p)),
                                        (''author'', JString (payload_Author p)),
                                        (''created_at'', JTime (CreatedAt b)),
                                        (''updated_at'', JTime (now e))])\<rparr>)) \<and>
         (i \<notin> ID ` set (books w) \<longrightarrow>
            updateBook e w rbody i =
              (\<lparr>status = 404, content_type = Some ''application/json'',
                body = Some (JObject [(''error'', JString ''book not found'')])\<rparr>,
               w\<lparr>stmts := stmts w @ [Update (payload_Title p) (payload_Author p) i]\<rparr>))"
proof -
  let ?f = "set_book (now e) (payload_Title p) (payload_Author p)"
  let ?g = "\<lambda>j x. if ID x = j
                   then \<lparr>ID = ID x, Title = payload_Title p, Author = payload_Author p,
                         CreatedAt = CreatedAt x, UpdatedAt = now e\<rparr>
                   else x"
  have fg: "(\<lambda>x. if ID x = j then ?f x else x) = ?g j" for j
    by (auto simp: fun_eq_iff set_book_def)
  have found:
    "updateBook e w rbody (ID b) =
       respondJSON (w\<lparr>stmts := stmts w @ [Update (payload_Title p) (payload_Author p) (ID b)],
                      books := map (?g (ID b)) (books w)\<rparr>) 200 (encode_Book (?f b))"
    if "pkey_inv w" and "b \<in> set (books w)"
  proof -
    have d: "distinct (map ID (books w))" using that(1) by (simp add: pkey_inv_def)
    have rows: "filter (\<lambda>x. ID x = ID b) (books w) = [b]"
      using d that(2) by (rule filter_ID_unique)
    show ?thesis using assms rows
      by (simp add: updateBook_def db_call_def update_book_def Row_Scan_def fg)
  qed
  have books': "books (snd (respondJSON w1 st v)) = books w1" for w1 st v
    by (simp add: respondJSON_def split: sum.splits)
  have advance: "\<forall>x \<in> set (map (?g (ID b)) (books w)). ID x = ID b \<longrightarrow> UpdatedAt b < UpdatedAt x"
    if "UpdatedAt b < now e"
    using that by auto
  have enc: "encode_Book (?f b) =
               Inr (JObject [(''id'', JInt (ID b)), (''title'', JString (payload_Title p)),
                             (''author'', JString (payload_Author p)),
                             (''created_at'', JTime (CreatedAt b)),
                             (''updated_at'', JTime (now e))])"
    if "json_time_ok (CreatedAt b)" "json_time_ok (now e)"
    using that encode_Book_ok [of "?f b"] by (simp add: set_book_def)
  have absent:
    "updateBook e w rbody i =
       (\<lparr>status = 404, content_type = Some ''application/json'',
         body = Some (JObject [(''error'', JString ''book not found'')])\<rparr>,
        w\<lparr>stmts := stmts w @ [Update (payload_Title p) (payload_Author p) i]\<rparr>)"
    if "i \<notin> ID ` set (books w)"
  proof -
    have none: "filter (\<lambda>x. ID x = i) (books w) = []" using that by (rule filter_ID_absent)
    have "map (\<lambda>x. if ID x = i then ?f x else x) (books w) = books w"
      using that by (intro map_idI) auto
    then show ?thesis using assms none
      by (simp add: updateBook_def db_call_def update_book_def Row_Scan_def respondError_eq)
  qed
  show ?thesis
  proof (intro conjI impI)
    assume h: "pkey_inv w \<and> b \<in> set (books w)"
    note f = found [OF conjunct1 [OF h] conjunct2 [OF h]]
    show "status (fst (updateBook e w rbody (ID b))) = 200" unfolding f by simp
    show tbl: "books (snd (updateBook e w rbody (ID b))) = map (?g (ID b)) (books w)"
      unfolding f books' by simp
    show "\<forall>x \<in> set (books (snd (updateBook e w rbody (ID b)))).
            ID x = ID b \<longrightarrow> UpdatedAt b < UpdatedAt x"
      if "UpdatedAt b < now e"
      unfolding tbl using advance [OF that] .
    show "fst (updateBook e w rbody (ID b)) =
            \<lparr>status = 200, content_type = Some ''application/json'',
             body = Some (JObject [(''id'', JInt (ID b)),
                                   (''title'', JString (payload_Title p)),
                                   (''author'', JString (payload_Author p)),
                                   (''created_at'', JTime (CreatedAt b)),
                                   (''updated_at'', JTime (now e))])\<rparr>"
      if "json_time_ok (CreatedAt b) \<and> json_time_ok (now e)"
      unfolding f using enc that by (simp add: respondJSON_def)
  next
    assume "i \<notin> ID ` set (books w)"
    then show "updateBook e w rbody i =
       (\<lparr>status = 404, content_type = Some ''application/json'',
         body = Some (JObject [(''error'', JString ''book not found'')])\<rparr>,
        w\<lparr>stmts := stmts w @ [Update (payload_Title p) (payload_Author p) i]\<rparr>)"
      by (rule absent)
  qed
qed

theorem update_sets_fields_witness:
  "pkey_inv world1 \<and> dune \<in> set (books world1) \<and> UpdatedAt dune < now (env0\<lparr>now := 2000\<rparr>) \<and>
   json_time_ok (CreatedAt dune) \<and> json_time_ok (now (env0\<lparr>now := 2000\<rparr>)) \<and>
   updateBook (env0\<lparr>now := 2000\<rparr>) world1 ''dune'' 1 =
     (\<lparr>status = 200, content_type = Some ''application/json'',
       body = Some (JObject [(''id'', JInt 1), (''title'', JString ''Dune''),
                             (''author'', JString ''Herbert''), (''created_at'', JTime 1000),
                             (''updated_at'', JTime 2000)])\<rparr>,
      world1\<lparr>books := [dune\<lparr>UpdatedAt := 2000\<rparr>], stmts := [Update ''Dune'' ''Herbert'' 1]\<rparr>) \<and>
   2 \<notin> ID ` set (books world1) \<and>
   fst (updateBook (env0\<lparr>now := 2000\<rparr>) world1 ''dune'' 2) =
     \<lparr>status = 404, content_type = Some ''application/json'',
      body = Some (JObject [(''error'', JString ''book not found'')])\<rparr>"
proof -
  let ?e = "env0\<lparr>now := 2000\<rparr>"
  have h1: "json_decode ?e ''dune'' = Inr \<lparr>payload_Title = ''Dune'', payload_Author = ''Herbert''\<rparr>"
    by (simp add: env0_def decode0_def)
  have h4: "stmt_err ?e = None" by (simp add: env0_def)
  have h5: "pkey_inv world1 \<and> dune \<in> set (books world1)"
    by (simp add: pkey_inv_def world1_def dune_def)
  have h6: "2 \<notin> ID ` set (books world1)" by (simp add: world1_def dune_def)
  have h7: "json_time_ok (CreatedAt dune) \<and> json_time_ok (now ?e)"
    by (simp add: dune_def env0_def json_time_ok_def year0_def year10000_def)
  from update_sets_fields [OF h1 _ _ h4, of world1 dune 2] h5 h6 h7 show ?thesis
    by (simp add: dune_def world1_def env0_def decode0_def updateBook_def db_call_def
        update_book_def Row_Scan_def set_book_def respondJSON_def respondError_eq
        encode_Book_def marshal_Time_def year0_def year10000_def)
qed

text \<open>
  An update whose \<open>NOW()\<close> equals the stored \<open>updated_at\<close> succeeds and leaves
  \<open>updated_at\<close> where it was: the statement assigns the clock reading and compares
  nothing.
\<close>

theorem update_same_instant_counterexample:
  "pkey_inv world1 \<and> dune \<in> set (books world1) \<and>
   status (fst (updateBook env0 world1 ''dune'' (ID dune))) = 200 \<and>
   map UpdatedAt (books (snd (updateBook env0 world1 ''dune'' (ID dune)))) =
     map UpdatedAt (books world1)"
  by (simp add: pkey_inv_def world1_def dune_def env0_def decode0_def updateBook_def db_call_def
      update_book_def Row_Scan_def set_book_def respondJSON_def
      encode_Book_def marshal_Time_def year0_def year10000_def)

section \<open>Delete\<close>

text \<open>
  C5: when the driver reports no failure, \<open>deleteBook\<close> removes the rows with the given
  id; it answers 204 without content type and without body when a row had the id, and 404
  with the envelope \<open>book not found\<close> when none had (never there, or deleted before).
  Whatever the first call found, a second \<open>deleteBook\<close> on the id answers that 404, and
  so does \<open>getBook\<close>. Every outcome is a response: the handler is a total function.
\<close>

theorem delete_then_not_found:
  assumes "stmt_err e = None" and "affected_err e = None"
    and "stmt_err e' = None" and "affected_err e' = None"
  shows "(i \<in> ID ` set (books w) \<longrightarrow>
            fst (deleteBook e w i) = \<lparr>status = 204, content_type = None, body = None\<rparr>) \<and>
         (i \<notin> ID ` set (books w) \<longrightarrow>
            fst (deleteBook e w i) =
              \<lparr>status = 404, content_type = Some ''application/json'',
               body = Some (JObject [(''error'', JString ''book not found'')])\<rparr>) \<and>
         snd (deleteBook e w i) =
           w\<lparr>stmts := stmts w @ [Delete i], books := filter (\<lambda>b. ID b \<noteq> i) (books w)\<rparr> \<and>
         fst (deleteBook e' (snd (deleteBook e w i)) i) =
           \<lparr>status = 404, content_type = Some ''application/json'',
            body = Some (JObject [(''error'', JString ''book not found'')])\<rparr> \<and>
         fst (getBook e' (snd (deleteBook e w i)) i) =
           \<lparr>status = 404, content_type = Some ''application/json'',
            body = Some (JObject [(''error'', JString ''book not found'')])\<rparr>"
proof -
  let ?nf = "\<lparr>status = 404, content_type = Some ''application/json'',
              body = Some (JObject [(''error'', JString ''book not found'')])\<rparr>"
  let ?w' = "w\<lparr>stmts := stmts w @ [Delete i], books := filter (\<lambda>b. ID b \<noteq> i) (books w)\<rparr>"
  have d: "deleteBook e w i =
             (if filter (\<lambda>x. ID x = i) (books w) = [] then ?nf
              else \<lparr>status = 204, content_type = None, body = None\<rparr>, ?w')"
    using assms(1,2)
    by (simp add: deleteBook_def db_call_def delete_book_def RowsAffected_def respondError_eq)
  have again: "fst (deleteBook e' ?w' i) = ?nf"
    using assms(3,4)
    by (simp add: deleteBook_def db_call_def delete_book_def RowsAffected_def filter_filter_ID
        respondError_eq)
  have get: "fst (getBook e' ?w' i) = ?nf"
    using assms(3)
    by (simp add: getBook_def db_call_def select_by_id_def Row_Scan_def filter_filter_ID
        respondError_eq)
  show ?thesis using d again get by (simp add: filter_ID_Nil_iff)
qed

theorem delete_then_not_found_witness:
  "1 \<in> ID ` set (books world1) \<and>
   deleteBook env0 world1 1 =
     (\<lparr>status = 204, content_type = None, body = None\<rparr>,
      world1\<lparr>books := [], stmts := [Delete 1]\<rparr>) \<and>
   2 \<notin> ID ` set (books world1) \<and>
   fst (deleteBook env0 world1 2) =
     \<lparr>status = 404, content_type = Some ''application/json'',
      body = Some (JObject [(''error'', JString ''book not found'')])\<rparr> \<and>
   fst (getBook env0 (snd (deleteBook env0 world1 1)) 1) =
     \<lparr>status = 404, content_type = Some ''application/json'',
      body = Some (JObject [(''error'', JString ''book not found'')])\<rparr>"
proof -
  have h: "stmt_err env0 = None" "affected_err env0 = None" by (simp_all add: env0_def)
  have m: "1 \<in> ID ` set (books world1)" "2 \<notin> ID ` set (books world1)"
    by (simp_all add: world1_def dune_def)
  note r1 = delete_then_not_found [OF h h, of 1 world1]
  note r2 = delete_then_not_found [OF h h, of 2 world1]
  have a: "fst (deleteBook env0 world1 1) = \<lparr>status = 204, content_type = None, body = None\<rparr>"
    using r1 m(1) by blast
  have b: "snd (deleteBook env0 world1 1) = world1\<lparr>books := [], stmts := [Delete 1]\<rparr>"
    using r1 by (simp add: world1_def dune_def)
  have c: "fst (deleteBook env0 world1 2) =
     \<lparr>status = 404, content_type = Some ''application/json'',
      body = Some (JObject [(''error'', JString ''book not found'')])\<rparr>"
    using r2 m(2) by blast
  have d: "fst (getBook env0 (snd (deleteBook env0 world1 1)) 1) =
     \<lparr>status = 404, content_type = Some ''application/json'',
      body = Some (JObject [(''error'', JString ''book not found'')])\<rparr>"
    using r1 by blast
  have "deleteBook env0 world1 1 =
     (\<lparr>status = 204, content_type = None, body = None\<rparr>,
      world1\<lparr>books := [], stmts := [Delete 1]\<rparr>)"
    using a b by (simp add: prod_eq_iff)
  then show ?thesis using m c d by simp
qed

text \<open>
  C10, as the source has it: in \<open>deleteBook\<close> the error of \<open>res.RowsAffected()\<close> is
  dropped and the count returned with it decides. When \<open>Exec\<close> succeeds and
  \<open>RowsAffected\<close> fails, the answer is 404 if that count is zero and 204 otherwise, never
  500; nothing is logged, and the rows with the id are gone all the same.
\<close>

theorem rows_affected_error_dropped:
  assumes "stmt_err e = None" and "affected_err e = Some (c, err)"
  shows "deleteBook e w i =
           (if c = 0
            then \<lparr>status = 404, content_type = Some ''application/json'',
                  body = Some (JObject [(''error'', JString ''book not found'')])\<rparr>
            else \<lparr>status = 204, content_type = None, body = None\<rparr>,
            w\<lparr>stmts := stmts w @ [Delete i], books := filter (\<lambda>b. ID b \<noteq> i) (books w)\<rparr>)"
  using assms
  by (simp add: deleteBook_def db_call_def delete_book_def RowsAffected_def respondError_eq)

theorem rows_affected_error_dropped_witness:
  "stmt_err env_affected0 = None \<and>
   affected_err env_affected0 = Some (0, ''driver: bad connection'') \<and>
   deleteBook env_affected0 world1 1 =
     (\<lparr>status = 404, content_type = Some ''application/json'',
       body = Some (JObject [(''error'', JString ''book not found'')])\<rparr>,
      world1\<lparr>stmts := [Delete 1], books := []\<rparr>)"
proof -
  have h: "stmt_err env_affected0 = None"
    "affected_err env_affected0 = Some (0, ''driver: bad connection'')"
    by (simp_all add: env_affected0_def env0_def)
  from rows_affected_error_dropped [OF h, of world1 1] h show ?thesis
    by (simp add: world1_def dune_def)
qed

text \<open>
  A driver that returns the count 1 together with its error is answered 204, not 404: the
  handler does not take the count to be zero.
\<close>

theorem rows_affected_count_counterexample:
  "stmt_err env_affected = None \<and>
   affected_err env_affected = Some (1, ''driver: bad connection'') \<and>
   fst (deleteBook env_affected world1 1) =
     \<lparr>status = 204, content_type = None, body = None\<rparr>"
  by (simp add: env_affected_def env0_def world1_def dune_def deleteBook_def db_call_def
      delete_book_def RowsAffected_def)

section \<open>The key invariant holds in every reachable state\<close>

lemma pkey_inv_frame [simp]:
  "pkey_inv (w\<lparr>stmts := s\<rparr>) = pkey_inv w" "pkey_inv (w\<lparr>logged := l\<rparr>) = pkey_inv w"
  by (simp_all add: pkey_inv_def)

lemma pkey_inv_empty: "pkey_inv empty_world"
  by (simp add: pkey_inv_def empty_world_def)

lemma pkey_inv_insert:
  assumes "pkey_inv w"
  shows "pkey_inv (snd (insert_book t ti au w))"
proof -
  have "\<forall>b \<in> set (books w). ID b \<le> books_id_seq w"
    using assms by (simp add: pkey_inv_def list_all_iff)
  then have "books_id_seq w + 1 \<notin> ID ` set (books w)" by auto
  then show ?thesis using assms
    by (auto simp: insert_book_def pkey_inv_def Let_def list_all_iff)
qed

lemma pkey_inv_update:
  assumes "pkey_inv w"
  shows "pkey_inv (snd (update_book t ti au i w))"
proof -
  have "ID \<circ> (\<lambda>b. if ID b = i then set_book t ti au b else b) = ID"
    by (auto simp: fun_eq_iff set_book_def)
  then show ?thesis using assms
    by (auto simp: update_book_def pkey_inv_def list_all_iff set_book_def)
qed

lemma pkey_inv_delete:
  "pkey_inv w \<Longrightarrow> pkey_inv (snd (delete_book i w))"
  by (auto simp: delete_book_def pkey_inv_def list_all_iff distinct_map_filter)

lemma pkey_inv_db_call:
  assumes "pkey_inv w" and "\<And>w1. pkey_inv w1 \<Longrightarrow> pkey_inv (snd (run w1))"
  shows "pkey_inv (snd (db_call e q w run))"
  using assms by (simp add: db_call_def Let_def split: option.splits)

lemma pkey_inv_respondJSON [simp]:
  "pkey_inv (snd (respondJSON w st v)) = pkey_inv w"
  by (simp add: respondJSON_def split: sum.splits)

lemma pkey_inv_respondError [simp]:
  "pkey_inv (snd (respondError w st msg)) = pkey_inv w"
  by (simp add: respondError_def)

lemma pkey_inv_respondInternalError [simp]:
  "pkey_inv (snd (respondInternalError w err)) = pkey_inv w"
  by (simp add: respondInternalError_def)

lemma pkey_inv_listBooks: "pkey_inv w \<Longrightarrow> pkey_inv (snd (listBooks e w))"
  by (auto simp: listBooks_def db_call_def select_all_def Let_def
      split: option.splits sum.splits)

lemma pkey_inv_getBook: "pkey_inv w \<Longrightarrow> pkey_inv (snd (getBook e w i))"
  by (auto simp: getBook_def db_call_def select_by_id_def Row_Scan_def Let_def
      split: option.splits list.splits)

lemma pkey_inv_createBook:
  assumes "pkey_inv w"
  shows "pkey_inv (snd (createBook e w rbody))"
proof -
  have "pkey_inv (snd (db_call e q w (insert_book t ti au)))" for q t ti au
    using assms by (rule pkey_inv_db_call) (rule pkey_inv_insert)
  then have "pkey_inv w1" if "db_call e q w (insert_book t ti au) = (r, w1)" for q t ti au r w1
    using that by (metis snd_conv)
  then show ?thesis using assms
    by (auto simp: createBook_def split: sum.splits prod.splits scan_error.splits)
qed

lemma pkey_inv_updateBook:
  assumes "pkey_inv w"
  shows "pkey_inv (snd (updateBook e w rbody i))"
proof -
  have "pkey_inv (snd (db_call e q w (update_book t ti au i)))" for q t ti au
    using assms by (rule pkey_inv_db_call) (rule pkey_inv_update)
  then have "pkey_inv w1" if "db_call e q w (update_book t ti au i) = (r, w1)" for q t ti au r w1
    using that by (metis snd_conv)
  then show ?thesis using assms
    by (auto simp: updateBook_def split: sum.splits prod.splits scan_error.splits)
qed

lemma pkey_inv_deleteBook:
  assumes "pkey_inv w"
  shows "pkey_inv (snd (deleteBook e w i))"
proof -
  have "pkey_inv (snd (db_call e (Delete i) w (delete_book i)))"
    using assms by (rule pkey_inv_db_call) (rule pkey_inv_delete)
  then show ?thesis
    by (auto simp: deleteBook_def Let_def split: sum.splits prod.splits)
qed

lemma pkey_inv_handlers:
  "pkey_inv w \<Longrightarrow> pkey_inv (snd (handleBooks e w r)) \<and> pkey_inv (snd (handleBookByID e w r))"
  by (simp add: handleBooks_def handleBookByID_def pkey_inv_listBooks pkey_inv_getBook
      pkey_inv_createBook pkey_inv_updateBook pkey_inv_deleteBook split: sum.splits)

section \<open>Routing by id\<close>

text \<open>
  C6: when the segment after \<open>/books/\<close> is not a decimal literal of a 64-bit integer (the
  segments \<open>strconv.ParseInt\<close> rejects, by \<open>ParseInt_spec\<close>), \<open>handleBookByID\<close> answers
  400 \<open>invalid id\<close> and returns the world it was given: no statement was sent.
\<close>

theorem bad_id_rejected:
  assumes "\<not> (\<exists>v. int_literal (TrimPrefix (Path r) ''/books/'') = Some v \<and>
                   - (2 ^ 63) \<le> v \<and> v < 2 ^ 63)"
  shows "handleBookByID e w r =
           (\<lparr>status = 400, content_type = Some ''application/json'',
             body = Some (JObject [(''error'', JString ''invalid id'')])\<rparr>, w)"
proof -
  have "\<not> (\<exists>v. ParseInt (TrimPrefix (Path r) ''/books/'') = Inr v)"
    using assms by (simp add: ParseInt_spec)
  then obtain err where "ParseInt (TrimPrefix (Path r) ''/books/'') = Inl err"
    by (cases "ParseInt (TrimPrefix (Path r) ''/books/'')") auto
  then show ?thesis by (simp add: handleBookByID_def respondError_eq)
qed

theorem bad_id_rejected_witness:
  "\<not> (\<exists>v. int_literal (TrimPrefix (Path \<lparr>Method = ''GET'', Path = ''/books/abc'', Body = []\<rparr>)
                          ''/books/'') = Some v \<and> - (2 ^ 63) \<le> v \<and> v < 2 ^ 63) \<and>
   handleBookByID env0 world1 \<lparr>Method = ''GET'', Path = ''/books/abc'', Body = []\<rparr> =
     (\<lparr>status = 400, content_type = Some ''application/json'',
       body = Some (JObject [(''error'', JString ''invalid id'')])\<rparr>, world1)"
proof -
  have h: "\<not> (\<exists>v. int_literal (TrimPrefix (Path \<lparr>Method = ''GET'', Path = ''/books/abc'', Body = []\<rparr>)
                          ''/books/'') = Some v \<and> - (2 ^ 63) \<le> v \<and> v < 2 ^ 63)"
    by (simp add: int_literal_def is_digit_def)
  from bad_id_rejected [OF h, of env0 world1] h show ?thesis by simp
qed

lemma status_getBook: "status (fst (getBook e w i)) \<in> {200, 404, 500}"
  by (simp add: getBook_def db_call_def select_by_id_def Row_Scan_def respondInternalError_eq
      respondError_eq Let_def split: option.splits list.splits)

lemma status_updateBook: "status (fst (updateBook e w rbody i)) \<in> {200, 400, 404, 500}"
  by (simp add: updateBook_def db_call_def update_book_def Row_Scan_def respondInternalError_eq
      respondError_eq Let_def split: option.splits list.splits sum.splits)

lemma status_deleteBook: "status (fst (deleteBook e w i)) \<in> {204, 404, 500}"
  by (simp add: deleteBook_def db_call_def delete_book_def respondInternalError_eq
      respondError_eq Let_def split: option.splits)

text \<open>
  C8: in \<open>handleBookByID\<close> the id is parsed before the method is looked at. A segment
  that does not parse is answered 400 whatever the method, and an answer 405 means that
  the segment parsed and the method is none of GET, PUT and DELETE.
\<close>

theorem id_parsing_before_dispatch:
  "(\<not> (\<exists>v. int_literal (TrimPrefix (Path r) ''/books/'') = Some v \<and>
              - (2 ^ 63) \<le> v \<and> v < 2 ^ 63) \<longrightarrow>
      fst (handleBookByID e w r) =
        \<lparr>status = 400, content_type = Some ''application/json'',
         body = Some (JObject [(''error'', JString ''invalid id'')])\<rparr>) \<and>
   (status (fst (handleBookByID e w r)) = 405 \<longrightarrow>
      (\<exists>v. ParseInt (TrimPrefix (Path r) ''/books/'') = Inr v) \<and>
      Method r \<noteq> ''GET'' \<and> Method r \<noteq> ''PUT'' \<and> Method r \<noteq> ''DELETE'')"
proof -
  let ?seg = "TrimPrefix (Path r) ''/books/''"
  show ?thesis
  proof (cases "ParseInt ?seg")
    case (Inl err)
    then have "\<not> (\<exists>v. int_literal ?seg = Some v \<and> - (2 ^ 63) \<le> v \<and> v < 2 ^ 63)"
      using ParseInt_spec [of ?seg] by auto
    moreover have "handleBookByID e w r =
        (\<lparr>status = 400, content_type = Some ''application/json'',
          body = Some (JObject [(''error'', JString ''invalid id'')])\<rparr>, w)"
      using Inl by (simp add: handleBookByID_def respondError_eq)
    ultimately show ?thesis by simp
  next
    case (Inr v)
    then have lit: "int_literal ?seg = Some v \<and> - (2 ^ 63) \<le> v \<and> v < 2 ^ 63"
      using ParseInt_spec [of ?seg v] by simp
    have "status (fst (handleBookByID e w r)) = 405 \<Longrightarrow>
          Method r \<noteq> ''GET'' \<and> Method r \<noteq> ''PUT'' \<and> Method r \<noteq> ''DELETE''"
      using Inr status_getBook [of e w v] status_updateBook [of e w "Body r" v]
        status_deleteBook [of e w v]
      by (auto simp: handleBookByID_def split: if_splits)
    then show ?thesis using Inr lit by auto
  qed
qed

theorem id_parsing_before_dispatch_witness:
  "\<not> (\<exists>v. int_literal (TrimPrefix (Path \<lparr>Method = ''PATCH'', Path = ''/books/abc'', Body = []\<rparr>)
                          ''/books/'') = Some v \<and> - (2 ^ 63) \<le> v \<and> v < 2 ^ 63) \<and>
   fst (handleBookByID env0 world1 \<lparr>Method = ''PATCH'', Path = ''/books/abc'', Body = []\<rparr>) =
     \<lparr>status = 400, content_type = Some ''application/json'',
      body = Some (JObject [(''error'', JString ''invalid id'')])\<rparr> \<and>
   status (fst (handleBookByID env0 world1 \<lparr>Method = ''PATCH'', Path = ''/books/1'', Body = []\<rparr>)) = 405 \<and>
   ParseInt (TrimPrefix (Path \<lparr>Method = ''PATCH'', Path = ''/books/1'', Body = []\<rparr>) ''/books/'') = Inr 1"
proof -
  let ?bad = "\<lparr>Method = ''PATCH'', Path = ''/books/abc'', Body = []\<rparr>"
  let ?good = "\<lparr>Method = ''PATCH'', Path = ''/books/1'', Body = []\<rparr>"
  have h1: "\<not> (\<exists>v. int_literal (TrimPrefix (Path ?bad) ''/books/'') = Some v \<and>
                    - (2 ^ 63) \<le> v \<and> v < 2 ^ 63)"
    by (simp add: int_literal_def is_digit_def)
  have p: "ParseInt (TrimPrefix (Path ?good) ''/books/'') = Inr 1"
    by (simp add: ParseInt_def ParseUint_def is_digit_def digit_of_def cutoff10_def maxUint64_def)
  have h2: "status (fst (handleBookByID env0 world1 ?good)) = 405"
    using p by (simp add: handleBookByID_def respondError_eq)
  from id_parsing_before_dispatch [of ?bad env0 world1]
    id_parsing_before_dispatch [of ?good env0 world1] h1 h2 p
  show ?thesis by simp
qed

text \<open>
  C9: a segment that denotes zero or a negative 64-bit integer \<open>v\<close> is accepted by the
  parser. On a table that satisfies the key invariant, with no driver failure, the request
  reaches the database with that \<open>v\<close> (GET sends the select for \<open>v\<close>, DELETE the delete for
  \<open>v\<close>, PUT with a valid payload the update for \<open>v\<close>) and is answered 404 \<open>book not
  found\<close>, not 400.
\<close>

theorem nonpositive_id_not_found:
  assumes "pkey_inv w" and "int_literal seg = Some v" and "- (2 ^ 63) \<le> v" and "v \<le> 0"
    and "Path r = ''/books/'' @ seg" and "stmt_err e = None" and "affected_err e = None"
  shows "(Method r = ''GET'' \<longrightarrow>
            handleBookByID e w r =
              (\<lparr>status = 404, content_type = Some ''application/json'',
                body = Some (JObject [(''error'', JString ''book not found'')])\<rparr>,
               w\<lparr>stmts := stmts w @ [SelectByID v]\<rparr>)) \<and>
         (Method r = ''DELETE'' \<longrightarrow>
            handleBookByID e w r =
              (\<lparr>status = 404, content_type = Some ''application/json'',
                body = Some (JObject [(''error'', JString ''book not found'')])\<rparr>,
               w\<lparr>stmts := stmts w @ [Delete v]\<rparr>)) \<and>
         (Method r = ''PUT'' \<and> json_decode e (Body r) = Inr p \<and>
          payload_Title p \<noteq> [] \<and> payload_Author p \<noteq> [] \<longrightarrow>
            handleBookByID e w r =
              (\<lparr>status = 404, content_type = Some ''application/json'',
                body = Some (JObject [(''error'', JString ''book not found'')])\<rparr>,
               w\<lparr>stmts := stmts w @ [Update (payload_Title p) (payload_Author p) v]\<rparr>))"
proof -
  let ?nf = "\<lparr>status = 404, content_type = Some ''application/json'',
              body = Some (JObject [(''error'', JString ''book not found'')])\<rparr>"
  have seg: "TrimPrefix (Path r) ''/books/'' = seg" using assms(5) by simp
  have p: "ParseInt seg = Inr v" using assms(2,3,4) by (simp add: ParseInt_spec)
  have "v \<notin> ID ` set (books w)" using assms(1,4) by (auto simp: pkey_inv_def list_all_iff)
  then have none: "filter (\<lambda>x. ID x = v) (books w) = []" by (rule filter_ID_absent)
  have g: "getBook e w v = (?nf, w\<lparr>stmts := stmts w @ [SelectByID v]\<rparr>)"
    using none assms(6)
    by (simp add: getBook_def db_call_def select_by_id_def Row_Scan_def respondError_eq)
  have keep: "filter (\<lambda>b. ID b \<noteq> v) (books w) = books w"
    using none by (simp add: filter_empty_conv)
  have d: "deleteBook e w v = (?nf, w\<lparr>stmts := stmts w @ [Delete v]\<rparr>)"
    using none keep assms(6,7)
    by (simp add: deleteBook_def db_call_def delete_book_def RowsAffected_def respondError_eq)
  have same: "map (\<lambda>x. if ID x = v then set_book t ti au x else x) (books w) = books w"
    for t ti au
    using \<open>v \<notin> ID ` set (books w)\<close> by (intro map_idI) auto
  have u: "updateBook e w (Body r) v =
             (?nf, w\<lparr>stmts := stmts w @ [Update (payload_Title p) (payload_Author p) v]\<rparr>)"
    if "json_decode e (Body r) = Inr p" "payload_Title p \<noteq> []" "payload_Author p \<noteq> []"
    using that none same assms(6)
    by (simp add: updateBook_def db_call_def update_book_def Row_Scan_def respondError_eq)
  show ?thesis using seg p g d u
    by (simp add: handleBookByID_def)
qed

theorem nonpositive_id_not_found_witness:
  "pkey_inv world1 \<and> int_literal ''-5'' = Some (- 5) \<and> int_literal ''0'' = Some 0 \<and>
   handleBookByID env0 world1 \<lparr>Method = ''GET'', Path = ''/books/-5'', Body = []\<rparr> =
     (\<lparr>status = 404, content_type = Some ''application/json'',
       body = Some (JObject [(''error'', JString ''book not found'')])\<rparr>,
      world1\<lparr>stmts := [SelectByID (- 5)]\<rparr>) \<and>
   handleBookByID env0 world1 \<lparr>Method = ''DELETE'', Path = ''/books/0'', Body = []\<rparr> =
     (\<lparr>status = 404, content_type = Some ''application/json'',
       body = Some (JObject [(''error'', JString ''book not found'')])\<rparr>,
      world1\<lparr>stmts := [Delete 0]\<rparr>)"
proof -
  have h1: "pkey_inv world1" by (simp add: pkey_inv_def world1_def dune_def)
  have h2: "int_literal ''-5'' = Some (- 5)" "int_literal ''0'' = Some 0"
    by (simp_all add: int_literal_def is_digit_def digit_of_def)
  have h3: "stmt_err env0 = None" "affected_err env0 = None" by (simp_all add: env0_def)
  from nonpositive_id_not_found [OF h1 h2(1) _ _ _ h3,
      of "\<lparr>Method = ''GET'', Path = ''/books/-5'', Body = []\<rparr>"]
    nonpositive_id_not_found [OF h1 h2(2) _ _ _ h3,
      of "\<lparr>Method = ''DELETE'', Path = ''/books/0'', Body = []\<rparr>"] h1 h2
  show ?thesis by (simp add: world1_def)
qed

section \<open>Driver failures\<close>

lemma scan_rows_scan_err:
  "next_err e = None \<Longrightarrow> scan_err e = Some (j, err) \<Longrightarrow> k \<le> j \<Longrightarrow> j < k + length rs \<Longrightarrow>
   scan_rows e k rs acc = Inl err"
proof (induction rs arbitrary: k acc)
  case Nil
  then show ?case by simp
next
  case (Cons r rs)
  show ?case
  proof (cases "j = k")
    case True
    then show ?thesis using Cons.prems by simp
  next
    case False
    then have "Suc k \<le> j" "j < Suc k + length rs" using Cons.prems by simp_all
    then have "scan_rows e (Suc k) rs (append_Book acc r) = Inl err"
      using Cons.IH Cons.prems(1,2) by blast
    then show ?thesis using False Cons.prems(1,2) by simp
  qed
qed

text \<open>
  The failures the handlers do look at: when \<open>Query\<close>, \<open>QueryRow(...).Scan\<close> or \<open>Exec\<close>
  reports a failure in any of the five operations, or \<open>rows.Scan\<close> does in \<open>listBooks\<close>,
  the answer is 500 with the fixed envelope \<open>internal server error\<close>, in which the error
  does not occur, and the log gains the line \<open>internal error:\<close> followed by the error.
\<close>

lemma reported_failure_is_opaque:
  "(stmt_err e = Some err \<longrightarrow>
      listBooks e w =
        (\<lparr>status = 500, content_type = Some ''application/json'',
          body = Some (JObject [(''error'', JString ''internal server error'')])\<rparr>,
         w\<lparr>stmts := stmts w @ [SelectAll], logged := logged w @ [''internal error: '' @ err]\<rparr>) \<and>
      getBook e w i =
        (\<lparr>status = 500, content_type = Some ''application/json'',
          body = Some (JObject [(''error'', JString ''internal server error'')])\<rparr>,
         w\<lparr>stmts := stmts w @ [SelectByID i], logged := logged w @ [''internal error: '' @ err]\<rparr>) \<and>
      deleteBook e w i =
        (\<lparr>status = 500, content_type = Some ''application/json'',
          body = Some (JObject [(''error'', JString ''internal server error'')])\<rparr>,
         w\<lparr>stmts := stmts w @ [Delete i], logged := logged w @ [''internal error: '' @ err]\<rparr>) \<and>
      (json_decode e rbody = Inr p \<and> payload_Title p \<noteq> [] \<and> payload_Author p \<noteq> [] \<longrightarrow>
         createBook e w rbody =
           (\<lparr>status = 500, content_type = Some ''application/json'',
             body = Some (JObject [(''error'', JString ''internal server error'')])\<rparr>,
            w\<lparr>stmts := stmts w @ [Insert (payload_Title p) (payload_Author p)],
               logged := logged w @ [''internal error: '' @ err]\<rparr>) \<and>
         updateBook e w rbody i =
           (\<lparr>status = 500, content_type = Some ''application/json'',
             body = Some (JObject [(''error'', JString ''internal server error'')])\<rparr>,
            w\<lparr>stmts := stmts w @ [Update (payload_Title p) (payload_Author p) i],
               logged := logged w @ [''internal error: '' @ err]\<rparr>))) \<and>
   (stmt_err e = None \<and> next_err e = None \<and> scan_err e = Some (k, err) \<and> k < length (books w) \<longrightarrow>
      listBooks e w =
        (\<lparr>status = 500, content_type = Some ''application/json'',
          body = Some (JObject [(''error'', JString ''internal server error'')])\<rparr>,
         w\<lparr>stmts := stmts w @ [SelectAll], logged := logged w @ [''internal error: '' @ err]\<rparr>))"
proof -
  have scan: "scan_rows e 0 (sort_key ID (books w)) None = Inl err"
    if "next_err e = None" "scan_err e = Some (k, err)" "k < length (books w)"
    using that by (intro scan_rows_scan_err) simp_all
  show ?thesis using scan
    by (simp add: listBooks_def getBook_def deleteBook_def createBook_def updateBook_def
        db_call_def Row_Scan_def respondInternalError_eq select_all_def)
qed

text \<open>
  C7, at a failure the source does not look at: the iteration over the result of
  \<open>listBooks\<close> breaks off before the second of two rows, \<open>rows.Next()\<close> returns false
  with the cause in \<open>rows.Err()\<close>, which is never read (lines 121-130). The answer is 200
  with the one row read so far as the array, not 500, and the log stays empty.
\<close>

theorem listBooks_iteration_failure_unreported:
  "stmt_err env_next = None \<and> next_err env_next = Some (1, ''unexpected EOF'') \<and>
   books world2 = [hobbit, dune] \<and>
   listBooks env_next world2 =
     (\<lparr>status = 200, content_type = Some ''application/json'',
       body = Some (JArray [JObject [(''id'', JInt 1), (''title'', JString ''Dune''),
                                     (''author'', JString ''Herbert''),
                                     (''created_at'', JTime 1000),
                                     (''updated_at'', JTime 1000)]])\<rparr>,
      \<lparr>books = [hobbit, dune], books_id_seq = 2, stmts = [SelectAll], logged = []\<rparr>)"
  by (simp add: listBooks_def db_call_def select_all_def env_next_def env0_def world2_def
      hobbit_def dune_def append_Book_def encode_Books_def encode_Book_def marshal_Time_def
      year0_def year10000_def respondJSON_def)

end
